theory Spec2Isabelle
  imports Main
begin

section \<open>The configuration object of \<^verbatim>\<open>playwright.config.ts\<close>\<close>

subsection \<open>JavaScript values\<close>

text \<open>
  The configuration file is one object literal. An object is kept as the list of its
  properties in the order the literal writes them, so that the names it binds can be
  enumerated as well as read.
\<close>

datatype jsvalue =
    JUndefined
  | JBool bool
  | JNum int
  | JStr string
  | JArr "jsvalue list"
  | JObj "(string \<times> jsvalue) list"

text \<open>\<^verbatim>\<open>process.env\<close>: every variable is a string or \<^verbatim>\<open>undefined\<close>.\<close>

type_synonym env = "string \<rightharpoonup> string"

text \<open>
  Truthiness of a \<^verbatim>\<open>string | undefined\<close>, as \<^verbatim>\<open>!!v\<close> and \<^verbatim>\<open>v ? a : b\<close> test it:
  \<^verbatim>\<open>undefined\<close> and the empty string are falsy, every other string is truthy.
\<close>

definition truthy :: "string option \<Rightarrow> bool" where
  "truthy v = (case v of None \<Rightarrow> False | Some s \<Rightarrow> s \<noteq> [])"

text \<open>\<^verbatim>\<open>v || d\<close> for a \<^verbatim>\<open>string | undefined\<close> on the left and a string on the right.\<close>

definition or_else :: "string option \<Rightarrow> string \<Rightarrow> string" where
  "or_else v d = (case v of None \<Rightarrow> d | Some s \<Rightarrow> if s = [] then d else s)"

text \<open>Property access \<^verbatim>\<open>o.k\<close>: \<^verbatim>\<open>undefined\<close> when the property is not there.\<close>

fun jsget :: "jsvalue \<Rightarrow> string \<Rightarrow> jsvalue" where
  "jsget (JObj kvs) k = (case map_of kvs k of None \<Rightarrow> JUndefined | Some v \<Rightarrow> v)"
| "jsget _ k = JUndefined"

text \<open>\<^verbatim>\<open>Object.keys(o)\<close>.\<close>

fun own_keys :: "jsvalue \<Rightarrow> string list" where
  "own_keys (JObj kvs) = map fst kvs"
| "own_keys _ = []"

text \<open>
  \<^verbatim>\<open>{ ...d, k: v }\<close>: the spread of \<^verbatim>\<open>undefined\<close> contributes nothing; a property
  written after the spread replaces the spread's value in place, or is added at the end.
\<close>

definition spread :: "(string \<times> jsvalue) list option \<Rightarrow> (string \<times> jsvalue) list" where
  "spread d = (case d of None \<Rightarrow> [] | Some kvs \<Rightarrow> kvs)"

fun put :: "string \<Rightarrow> jsvalue \<Rightarrow> (string \<times> jsvalue) list \<Rightarrow> (string \<times> jsvalue) list" where
  "put k v [] = [(k, v)]"
| "put k v ((k', v') # kvs) = (if k = k' then (k, v) # kvs else (k', v') # put k v kvs)"

subsection \<open>The exported configuration\<close>

text \<open>
  \<^verbatim>\<open>defineConfig\<close> of \<^verbatim>\<open>@playwright/test\<close> returns the one configuration it is given.
\<close>

definition defineConfig :: "jsvalue \<Rightarrow> jsvalue" where
  "defineConfig c = c"

text \<open>
  The default export of \<^verbatim>\<open>playwright.config.ts\<close>, as a function of the two things it
  reads: the process environment, and the \<^verbatim>\<open>devices\<close> table of \<^verbatim>\<open>@playwright/test\<close>
  (not part of the repository, hence a parameter: a device name gives a descriptor
  object or \<^verbatim>\<open>undefined\<close>).
\<close>

definition playwright_config ::
  "env \<Rightarrow> (string \<rightharpoonup> (string \<times> jsvalue) list) \<Rightarrow> jsvalue" where
  "playwright_config env devices = defineConfig (JObj
    [(''testDir'', JStr ''./tests''),
     (''fullyParallel'', JBool True),
     (''forbidOnly'', JBool (truthy (env ''CI''))),
     (''retries'', JNum (if truthy (env ''CI'') then 0 else 0)),
     (''workers'', JNum (if truthy (env ''CI'') then 1 else 2)),
     (''reporter'', JArr
        [JArr [JStr ''html''],
         JArr [JStr ''json'', JObj [(''outputFile'', JStr ''test-results/results.json'')]],
         JArr [JStr ''junit'', JObj [(''outputFile'', JStr ''test-results/results.xml'')]]]),
     (''use'', JObj
        [(''baseURL'',
            JStr (or_else (env ''BASE_URL'') ''https://ecommercepracticeportal.netlify.app'')),
         (''trace'', JStr ''on-first-retry''),
         (''headless'', JBool False),
         (''screenshot'', JStr ''only-on-failure''),
         (''actionTimeout'', JNum 10000),
         (''navigationTimeout'', JNum 30000)]),
     (''projects'', JArr
        [JObj
           [(''name'', JStr ''chromium''),
            (''use'', JObj
               (put ''viewport'' (JObj [(''width'', JNum 1280), (''height'', JNum 720)])
                  (spread (devices ''Desktop Chrome''))))]])])"

text \<open>
  The names the configuration binds: the top-level properties other than the \<^verbatim>\<open>use\<close>
  block itself, followed by the properties of the \<^verbatim>\<open>use\<close> block.
\<close>

definition option_names :: "jsvalue \<Rightarrow> string list" where
  "option_names c =
     filter (\<lambda>k. k \<noteq> ''use'') (own_keys c) @ own_keys (jsget c ''use'')"

text \<open>
  The option list of the specification's section on external interfaces, in its own
  words, for comparison with \<open>option_names\<close>.
\<close>

definition spec_recognized_options :: "string list" where
  "spec_recognized_options =
     [''baseURL'', ''actionTimeoutMs'', ''navigationTimeoutMs'', ''workerCount'',
      ''retryCount'', ''headless'']"

text \<open>
  Where the configuration file keeps each option of the specification's list: the
  timeouts and the counts go by Playwright's names, and the per-test options sit in
  the \<^verbatim>\<open>use\<close> block.
\<close>

definition spec_option :: "jsvalue \<Rightarrow> string \<Rightarrow> jsvalue" where
  "spec_option c name =
     (if name = ''baseURL'' then jsget (jsget c ''use'') ''baseURL''
      else if name = ''actionTimeoutMs'' then jsget (jsget c ''use'') ''actionTimeout''
      else if name = ''navigationTimeoutMs'' then jsget (jsget c ''use'') ''navigationTimeout''
      else if name = ''workerCount'' then jsget c ''workers''
      else if name = ''retryCount'' then jsget c ''retries''
      else if name = ''headless'' then jsget (jsget c ''use'') ''headless''
      else JUndefined)"

section \<open>The orchestration core\<close>

text \<open>
  The page objects, the base page, the test data provider and the journeys are files
  of the repository outside the sources at hand (\<^verbatim>\<open>utils/BasePage.ts\<close>,
  \<^verbatim>\<open>utils/TestData.ts\<close>, \<^verbatim>\<open>pages/CheckoutPage.ts\<close>, \<^verbatim>\<open>tests/*.spec.ts\<close>). The
  definitions of this section follow the specification's description of them.
\<close>

subsection \<open>Failures and operations\<close>

text \<open>
  Modelled from the spec: the error kinds of the error handling design (the code that
  raises them, \<^verbatim>\<open>utils/BasePage.ts\<close> and the page objects, is missing).
  \<open>AssertionTimeout\<close> carries the last observed value.
\<close>

datatype error =
    ElementNotInteractable
  | AssertionTimeout string
  | NavigationTimeout
  | ActionNotConfirmed
  | ConfigurationError

text \<open>
  Modelled from the spec: an operation of the base page or of a page object acts on the
  browser session and either completes (\<open>None\<close>) or surfaces a failure; the session
  it leaves behind is returned in both cases, since nothing rolls a session back.
\<close>

type_synonym 's operation = "'s \<Rightarrow> error option \<times> 's"

subsection \<open>Scenario Runner\<close>

text \<open>
  Modelled from the spec: a step of a journey (the journeys of \<^verbatim>\<open>tests/*.spec.ts\<close> are
  missing). A step is a page object method applied to its arguments, and the
  assertion of the outcome expected after it.
\<close>

record 's step =
  title :: string
  pageMethod :: "'s operation"
  expectation :: "'s operation"

text \<open>
  Modelled from the spec: a step outcome \<open>{stepName, passed/failed, optional error
  detail}\<close>, with the third status the runner gives the steps it did not execute.
\<close>

datatype step_status = Passed | Failed | Skipped

record step_outcome =
  stepName :: string
  status :: step_status
  detail :: "error option"

text \<open>
  Modelled from the spec: the Scenario result, the ordered sequence of step outcomes
  together with the count of executed and of skipped steps.
\<close>

record scenario_result =
  outcomes :: "step_outcome list"
  executed :: nat
  skipped :: nat

text \<open>
  Modelled from the spec: executing one step. The method runs first; the assertion
  runs on the session the method left, and only if the method did not fail.
\<close>

definition exec_step :: "'s step \<Rightarrow> 's operation" where
  "exec_step st s =
     (case pageMethod st s of
        (Some e, s') \<Rightarrow> (Some e, s')
      | (None, s') \<Rightarrow> expectation st s')"

text \<open>
  Modelled from the spec: the Scenario Runner's loop. Steps are executed strictly in
  order; a step failure halts the remaining steps and records all unexecuted steps as
  skipped, with the failure kind kept as the detail of the failed step.
\<close>

fun run_steps :: "'s step list \<Rightarrow> 's \<Rightarrow> step_outcome list \<times> 's" where
  "run_steps [] s = ([], s)"
| "run_steps (st # rest) s =
     (case exec_step st s of
        (None, s') \<Rightarrow>
          (case run_steps rest s' of
             (os, s'') \<Rightarrow> (\<lparr>stepName = title st, status = Passed, detail = None\<rparr> # os, s''))
      | (Some e, s') \<Rightarrow>
          (\<lparr>stepName = title st, status = Failed, detail = Some e\<rparr> #
             map (\<lambda>r. \<lparr>stepName = title r, status = Skipped, detail = None\<rparr>) rest,
           s'))"

text \<open>
  Modelled from the spec: the runner produces a single Scenario result regardless of
  success or failure, always including the count of executed and skipped steps.
\<close>

definition run_scenario :: "'s step list \<Rightarrow> 's \<Rightarrow> scenario_result \<times> 's" where
  "run_scenario steps s =
     (case run_steps steps s of
        (os, s') \<Rightarrow>
          (\<lparr>outcomes = os,
            executed = length (filter (\<lambda>oc. status oc \<noteq> Skipped) os),
            skipped = length (filter (\<lambda>oc. status oc = Skipped) os)\<rparr>,
           s'))"

text \<open>
  Modelled from the spec: steps within one scenario execute strictly sequentially,
  each on the browser state left by the previous. This is the session step \<open>i + 1\<close>
  of a journey starts from, once the \<open>i\<close> steps before it have been executed.
\<close>

definition session_before :: "'s step list \<Rightarrow> 's \<Rightarrow> nat \<Rightarrow> 's" where
  "session_before steps s i = foldl (\<lambda>s st. snd (exec_step st s)) s (take i steps)"

subsection \<open>Test Data Provider\<close>

text \<open>
  Modelled from the spec: the state of the test data provider within one process run
  (\<^verbatim>\<open>utils/TestData.ts\<close> is missing). Of the two schemes the specification names, a
  timestamp or a counter suffix, this is the counter: it is zero at process start and
  every generated value uses it up.
\<close>

record provider =
  counter :: nat

definition process_start :: provider where
  "process_start = \<lparr>counter = 0\<rparr>"

text \<open>
  Modelled from the spec: the counter suffix of a generated value, the counter in
  decimal, most significant digit first.
\<close>

definition digit :: "nat \<Rightarrow> char" where
  "digit d = ''0123456789'' ! d"

fun decimal :: "nat \<Rightarrow> string" where
  "decimal n = (if n < 10 then [digit n] else decimal (n div 10) @ [digit (n mod 10)])"

declare decimal.simps [simp del]

text \<open>
  Modelled from the spec: \<^verbatim>\<open>randomEmail()\<close> and \<^verbatim>\<open>randomProductName()\<close>, each a fixed
  stem with the counter as its suffix, and each advancing the counter.
\<close>

definition randomEmail :: "provider \<Rightarrow> string \<times> provider" where
  "randomEmail p =
     (''user'' @ decimal (counter p) @ ''@example.com'', p\<lparr>counter := Suc (counter p)\<rparr>)"

definition randomProductName :: "provider \<Rightarrow> string \<times> provider" where
  "randomProductName p =
     (''Product '' @ decimal (counter p), p\<lparr>counter := Suc (counter p)\<rparr>)"

text \<open>
  Modelled from the spec: one process run, as the sequence of generator calls the
  tests make; the result lists the values returned, in call order.
\<close>

datatype generator = RandomEmail | RandomProductName

fun generate :: "generator \<Rightarrow> provider \<Rightarrow> string \<times> provider" where
  "generate RandomEmail p = randomEmail p"
| "generate RandomProductName p = randomProductName p"

fun process_run :: "generator list \<Rightarrow> provider \<Rightarrow> string list" where
  "process_run [] p = []"
| "process_run (g # gs) p = (case generate g p of (v, p') \<Rightarrow> v # process_run gs p')"

subsection \<open>Base Page and the checkout page object\<close>

text \<open>
  Modelled from the spec: a locator descriptor, what a wait waits for, and the kinds of
  action the engine dispatches (\<^verbatim>\<open>utils/BasePage.ts\<close> is missing).
\<close>

type_synonym locator = string

datatype condition = Clickable locator | Editable locator

datatype action = Click | Clear | TypeText string

text \<open>
  Modelled from the spec: the capability interface Base Page is specified against.
  \<open>waitFor\<close> takes a condition and a timeout in milliseconds and tells whether the
  condition came to hold before the timeout expired; \<open>act\<close> dispatches an action on
  the element a locator resolves to.
\<close>

record 's engine =
  waitFor :: "condition \<Rightarrow> nat \<Rightarrow> 's \<Rightarrow> bool \<times> 's"
  act :: "locator \<Rightarrow> action \<Rightarrow> 's \<Rightarrow> 's"

text \<open>
  Modelled from the spec: \<^verbatim>\<open>click(locator, options)\<close> and
  \<^verbatim>\<open>fill(locator, value, options)\<close>. The wait is bounded by \<^verbatim>\<open>options.timeout\<close>, or
  by the global action timeout when the call gives none; an expired wait fails with
  \<open>ElementNotInteractable\<close>. \<open>fill\<close> clears the existing content, then types.
\<close>

definition click :: "'s engine \<Rightarrow> nat \<Rightarrow> locator \<Rightarrow> nat option \<Rightarrow> 's operation" where
  "click eng actionTimeout loc timeout s =
     (case waitFor eng (Clickable loc)
             (case timeout of None \<Rightarrow> actionTimeout | Some t \<Rightarrow> t) s of
        (False, s') \<Rightarrow> (Some ElementNotInteractable, s')
      | (True, s') \<Rightarrow> (None, act eng loc Click s'))"

definition fill :: "'s engine \<Rightarrow> nat \<Rightarrow> locator \<Rightarrow> string \<Rightarrow> nat option \<Rightarrow> 's operation" where
  "fill eng actionTimeout loc v timeout s =
     (case waitFor eng (Editable loc)
             (case timeout of None \<Rightarrow> actionTimeout | Some t \<Rightarrow> t) s of
        (False, s') \<Rightarrow> (Some ElementNotInteractable, s')
      | (True, s') \<Rightarrow> (None, act eng loc (TypeText v) (act eng loc Clear s')))"

text \<open>
  Modelled from the spec: a page object's fixed mapping from semantic field name to
  locator descriptor, here with the locator of the submit control
  (\<^verbatim>\<open>pages/CheckoutPage.ts\<close> is missing).
\<close>

record page_object =
  fieldLocator :: "string \<rightharpoonup> locator"
  submitControl :: locator

text \<open>
  Modelled from the spec: \<^verbatim>\<open>completeGuestCheckout(billingData)\<close> chains the field
  fills of the billing record (flat key-value pairs) and then submits. A field name
  without a locator mapping is a \<open>ConfigurationError\<close>. The first failure ends the
  chain, and the session is returned as the chain left it.
\<close>

fun fill_fields ::
  "'s engine \<Rightarrow> nat \<Rightarrow> (string \<rightharpoonup> locator) \<Rightarrow> (string \<times> string) list \<Rightarrow> 's operation" where
  "fill_fields eng actionTimeout locs [] s = (None, s)"
| "fill_fields eng actionTimeout locs ((f, v) # rest) s =
     (case locs f of
        None \<Rightarrow> (Some ConfigurationError, s)
      | Some loc \<Rightarrow>
          (case fill eng actionTimeout loc v None s of
             (Some e, s') \<Rightarrow> (Some e, s')
           | (None, s') \<Rightarrow> fill_fields eng actionTimeout locs rest s'))"

definition completeGuestCheckout ::
  "'s engine \<Rightarrow> nat \<Rightarrow> page_object \<Rightarrow> (string \<times> string) list \<Rightarrow> 's operation" where
  "completeGuestCheckout eng actionTimeout page billingData s =
     (case fill_fields eng actionTimeout (fieldLocator page) billingData s of
        (Some e, s') \<Rightarrow> (Some e, s')
      | (None, s') \<Rightarrow> click eng actionTimeout (submitControl page) None s')"

text \<open>
  Modelled from the spec: one engine implementing the capability interface (any such
  engine is substitutable), over a browser session reduced to a form: the locators
  that resolve to an interactable element, the content typed into each field so far,
  and the clicks dispatched. It finds an element at once or not at all, and leaves the
  session alone while waiting.
\<close>

record form_session =
  interactable :: "locator list"
  content :: "(locator \<times> string) list"
  clicked :: "locator list"

fun form_waitFor :: "condition \<Rightarrow> nat \<Rightarrow> form_session \<Rightarrow> bool \<times> form_session" where
  "form_waitFor (Clickable loc) t s = (loc \<in> set (interactable s), s)"
| "form_waitFor (Editable loc) t s = (loc \<in> set (interactable s), s)"

fun form_act :: "locator \<Rightarrow> action \<Rightarrow> form_session \<Rightarrow> form_session" where
  "form_act loc Click s = s\<lparr>clicked := clicked s @ [loc]\<rparr>"
| "form_act loc Clear s = s\<lparr>content := filter (\<lambda>kv. fst kv \<noteq> loc) (content s)\<rparr>"
| "form_act loc (TypeText v) s = s\<lparr>content := content s @ [(loc, v)]\<rparr>"

definition form_engine :: "form_session engine" where
  "form_engine = \<lparr>waitFor = form_waitFor, act = form_act\<rparr>"

subsection \<open>A journey to instantiate the theorems at\<close>

text \<open>
  A checkout form whose last-name field never becomes interactable, the page object
  for it, and a three-step journey over it.
\<close>

definition checkout_form :: form_session where
  "checkout_form =
     \<lparr>interactable = [''#first-name'', ''#place-order''], content = [], clicked = []\<rparr>"

definition checkout_page :: page_object where
  "checkout_page =
     \<lparr>fieldLocator = [''firstName'' \<mapsto> ''#first-name'', ''lastName'' \<mapsto> ''#last-name''],
      submitControl = ''#place-order''\<rparr>"

definition guest_journey :: "form_session step list" where
  "guest_journey =
     [\<lparr>title = ''fill first name'',
       pageMethod = fill form_engine 10000 ''#first-name'' ''Ada'' None,
       expectation = (\<lambda>s. (None, s))\<rparr>,
      \<lparr>title = ''fill last name'',
       pageMethod = fill form_engine 10000 ''#last-name'' ''Lovelace'' None,
       expectation = (\<lambda>s. (None, s))\<rparr>,
      \<lparr>title = ''place order'',
       pageMethod = click form_engine 10000 ''#place-order'' None,
       expectation = (\<lambda>s. (None, s))\<rparr>]"

section \<open>Properties of the configuration\<close>

lemma use_block:
  "jsget (playwright_config env devices) ''use'' = JObj
     [(''baseURL'',
         JStr (or_else (env ''BASE_URL'') ''https://ecommercepracticeportal.netlify.app'')),
      (''trace'', JStr ''on-first-retry''),
      (''headless'', JBool False),
      (''screenshot'', JStr ''only-on-failure''),
      (''actionTimeout'', JNum 10000),
      (''navigationTimeout'', JNum 30000)]"
  by (simp add: playwright_config_def defineConfig_def)

text \<open>
  Claim C9. When \<^verbatim>\<open>BASE_URL\<close> is unset or empty, \<^verbatim>\<open>use.baseURL\<close> is
  \<^verbatim>\<open>https://ecommercepracticeportal.netlify.app\<close>; when it is set to a non-empty
  string, \<^verbatim>\<open>use.baseURL\<close> is that string.
\<close>

theorem baseURL_from_environment:
  "(env ''BASE_URL'' = None \<or> env ''BASE_URL'' = Some [] \<longrightarrow>
      jsget (jsget (playwright_config env devices) ''use'') ''baseURL'' =
        JStr ''https://ecommercepracticeportal.netlify.app'') \<and>
   (\<forall>u. env ''BASE_URL'' = Some u \<and> u \<noteq> [] \<longrightarrow>
      jsget (jsget (playwright_config env devices) ''use'') ''baseURL'' = JStr u)"
  by (auto simp add: use_block or_else_def)

theorem baseURL_from_environment_witness:
  "jsget (jsget (playwright_config Map.empty Map.empty) ''use'') ''baseURL'' =
     JStr ''https://ecommercepracticeportal.netlify.app'' \<and>
   jsget (jsget (playwright_config [''BASE_URL'' \<mapsto> ''''] Map.empty) ''use'') ''baseURL'' =
     JStr ''https://ecommercepracticeportal.netlify.app'' \<and>
   jsget (jsget (playwright_config [''BASE_URL'' \<mapsto> ''http://localhost:3000''] Map.empty)
            ''use'') ''baseURL'' =
     JStr ''http://localhost:3000''"
  using baseURL_from_environment [of Map.empty Map.empty]
    baseURL_from_environment [of "[''BASE_URL'' \<mapsto> '''']" Map.empty]
    baseURL_from_environment [of "[''BASE_URL'' \<mapsto> ''http://localhost:3000'']" Map.empty]
  by simp

text \<open>
  Claim C10. \<^verbatim>\<open>use.headless\<close> is \<^verbatim>\<open>false\<close> whatever the environment holds (and
  whatever the device table holds): no variable, \<^verbatim>\<open>CI\<close> and \<^verbatim>\<open>HEADLESS\<close> included,
  switches the configuration to headless mode.
\<close>

theorem headless_always_false:
  "jsget (jsget (playwright_config env devices) ''use'') ''headless'' = JBool False"
  by (simp add: use_block)

text \<open>
  The \<^verbatim>\<open>retries\<close> option evaluates to \<^verbatim>\<open>0\<close> on both branches of its test of \<^verbatim>\<open>CI\<close>.
\<close>

lemma retries_always_zero:
  "jsget (playwright_config env devices) ''retries'' = JNum 0"
  by (simp add: playwright_config_def defineConfig_def)

lemma option_names_config:
  "option_names (playwright_config env devices) =
     [''testDir'', ''fullyParallel'', ''forbidOnly'', ''retries'', ''workers'', ''reporter'',
      ''projects'', ''baseURL'', ''trace'', ''headless'', ''screenshot'', ''actionTimeout'',
      ''navigationTimeout'']"
  by (simp add: option_names_def playwright_config_def defineConfig_def)

text \<open>
  Claim C2, as amended. The configuration binds thirteen options, not six. The six of
  the specification are among them, each bound to a value of the stated meaning:
  \<^verbatim>\<open>use.baseURL\<close> a string, \<^verbatim>\<open>use.actionTimeout\<close> 10000 and \<^verbatim>\<open>use.navigationTimeout\<close>
  30000 (milliseconds), \<^verbatim>\<open>workers\<close> 1 under CI and 2 otherwise, \<^verbatim>\<open>retries\<close> 0, and
  \<^verbatim>\<open>use.headless\<close> false. Besides them the configuration sets \<^verbatim>\<open>testDir\<close>,
  \<^verbatim>\<open>fullyParallel\<close>, \<^verbatim>\<open>forbidOnly\<close>, \<^verbatim>\<open>reporter\<close>, \<^verbatim>\<open>projects\<close>, \<^verbatim>\<open>use.trace\<close> and
  \<^verbatim>\<open>use.screenshot\<close>.
\<close>

theorem configuration_options:
  "option_names (playwright_config env devices) =
     [''testDir'', ''fullyParallel'', ''forbidOnly'', ''retries'', ''workers'', ''reporter'',
      ''projects'', ''baseURL'', ''trace'', ''headless'', ''screenshot'', ''actionTimeout'',
      ''navigationTimeout''] \<and>
   spec_option (playwright_config env devices) ''baseURL'' =
     JStr (or_else (env ''BASE_URL'') ''https://ecommercepracticeportal.netlify.app'') \<and>
   spec_option (playwright_config env devices) ''actionTimeoutMs'' = JNum 10000 \<and>
   spec_option (playwright_config env devices) ''navigationTimeoutMs'' = JNum 30000 \<and>
   spec_option (playwright_config env devices) ''workerCount'' =
     JNum (if truthy (env ''CI'') then 1 else 2) \<and>
   spec_option (playwright_config env devices) ''retryCount'' = JNum 0 \<and>
   spec_option (playwright_config env devices) ''headless'' = JBool False"
proof -
  have top: "jsget (playwright_config env devices) ''workers'' =
        JNum (if truthy (env ''CI'') then 1 else 2)"
      "jsget (playwright_config env devices) ''retries'' = JNum 0"
    by (simp_all add: playwright_config_def defineConfig_def)
  show ?thesis
    by (simp add: option_names_config spec_option_def use_block top)
qed

text \<open>
  Claim C2 as stated fails: under the empty environment the configuration binds
  \<^verbatim>\<open>screenshot\<close> (and six more options), which is none of the six the claim lists, so
  the options it binds are not exactly those six under any naming of them.
\<close>

theorem configuration_options_counterexample:
  "set (option_names (playwright_config Map.empty Map.empty)) \<noteq> set spec_recognized_options \<and>
   ''screenshot'' \<in> set (option_names (playwright_config Map.empty Map.empty)) \<and>
   ''screenshot'' \<notin> set spec_recognized_options \<and>
   length (option_names (playwright_config Map.empty Map.empty)) = 13 \<and>
   distinct (option_names (playwright_config Map.empty Map.empty)) \<and>
   length spec_recognized_options = 6"
proof -
  have a: "''screenshot'' \<in> set (option_names (playwright_config Map.empty Map.empty))"
    by (simp add: option_names_config)
  have b: "''screenshot'' \<notin> set spec_recognized_options"
    by (simp add: spec_recognized_options_def)
  from a b have "set (option_names (playwright_config Map.empty Map.empty)) \<noteq>
      set spec_recognized_options"
    by blast
  moreover have "length (option_names (playwright_config Map.empty Map.empty)) = 13"
    by (simp add: option_names_config)
  moreover have "distinct (option_names (playwright_config Map.empty Map.empty))"
    by (simp add: option_names_config)
  moreover have "length spec_recognized_options = 6"
    by (simp add: spec_recognized_options_def)
  ultimately show ?thesis using a b by blast
qed

text \<open>
  The project entry of the configuration writes only a viewport after the device
  descriptor it spreads: its \<^verbatim>\<open>use\<close> block holds a \<^verbatim>\<open>headless\<close> property only if the
  descriptor itself does.
\<close>

lemma put_other: "k \<noteq> k' \<Longrightarrow> map_of (put k v kvs) k' = map_of kvs k'"
  by (induction kvs) auto

lemma project_use_headless:
  "jsget (JObj (put ''viewport'' v (spread d))) ''headless'' =
     jsget (JObj (spread d)) ''headless''"
  by (simp add: put_other)

section \<open>Properties of the Scenario Runner\<close>

lemma run_steps_length: "length (fst (run_steps steps s)) = length steps"
  by (induction steps arbitrary: s) (simp_all add: case_prod_beta split: option.splits)

lemma run_steps_names: "map stepName (fst (run_steps steps s)) = map title steps"
  by (induction steps arbitrary: s)
    (simp_all add: case_prod_beta comp_def split: option.splits)

text \<open>
  If the outcome recorded for step \<open>k\<close> is a failure, the steps before it passed and
  the steps after it were skipped.
\<close>

lemma run_steps_failed_at:
  "1 \<le> k \<Longrightarrow> k \<le> length steps \<Longrightarrow>
   status (fst (run_steps steps s) ! (k - 1)) = Failed \<Longrightarrow>
   map status (fst (run_steps steps s)) =
     replicate (k - 1) Passed @ Failed # replicate (length steps - k) Skipped"
proof (induction steps arbitrary: s k)
  case Nil
  then show ?case by simp
next
  case (Cons st rest)
  show ?case
  proof (cases "fst (exec_step st s)")
    case None
    then have unfold: "fst (run_steps (st # rest) s) =
        \<lparr>stepName = title st, status = Passed, detail = None\<rparr> #
          fst (run_steps rest (snd (exec_step st s)))"
      by (simp add: case_prod_beta)
    from Cons.prems(3) unfold have "k \<noteq> 1" by auto
    with Cons.prems(1) obtain j where j: "k = Suc j" "1 \<le> j" by (cases k) auto
    from Cons.prems(3) unfold j
    have "status (fst (run_steps rest (snd (exec_step st s))) ! (j - 1)) = Failed"
      by (cases j) auto
    with Cons.IH[of j "snd (exec_step st s)"] j Cons.prems(2)
    have "map status (fst (run_steps rest (snd (exec_step st s)))) =
      replicate (j - 1) Passed @ Failed # replicate (length rest - j) Skipped" by simp
    with unfold j show ?thesis by (cases j) auto
  next
    case (Some e)
    then have unfold: "fst (run_steps (st # rest) s) =
        \<lparr>stepName = title st, status = Failed, detail = Some e\<rparr> #
          map (\<lambda>r. \<lparr>stepName = title r, status = Skipped, detail = None\<rparr>) rest"
      by (simp add: case_prod_beta)
    have "k = 1"
    proof (rule ccontr)
      assume "k \<noteq> 1"
      with Cons.prems(1) obtain j where j: "k = Suc (Suc j)"
        by (cases k; cases "k - 1") auto
      with Cons.prems(2) have "j < length rest" by simp
      with Cons.prems(3) unfold j show False by simp
    qed
    with unfold show ?thesis by (simp add: comp_def map_replicate_const)
  qed
qed

text \<open>
  The session a run ends in is the session its executed steps lead to, each applied
  once and in order: the runner executes no step a second time.
\<close>

lemma run_steps_session:
  "snd (run_steps steps s) =
     foldl (\<lambda>s st. snd (exec_step st s)) s
       (take (length (filter (\<lambda>oc. status oc \<noteq> Skipped) (fst (run_steps steps s)))) steps)"
  by (induction steps arbitrary: s)
    (simp_all add: case_prod_beta comp_def split: option.splits)

lemma count_not_skipped:
  "length (filter (\<lambda>oc. status oc \<noteq> Skipped) os) =
     length (filter (\<lambda>t. t \<noteq> Skipped) (map status os))"
  by (induction os) simp_all

lemma count_skipped:
  "length (filter (\<lambda>oc. status oc = Skipped) os) =
     length (filter (\<lambda>t. t = Skipped) (map status os))"
  by (induction os) simp_all

text \<open>
  A step that fails after all the steps before it succeeded is recorded as failed,
  the steps before it as passed and the steps after it as skipped.
\<close>

lemma session_before_Cons:
  "session_before (st # rest) s (Suc i) = session_before rest (snd (exec_step st s)) i"
  by (simp add: session_before_def)

lemma session_before_0: "session_before steps s 0 = s"
  by (simp add: session_before_def)

lemma run_steps_fails_at:
  "j < length steps \<Longrightarrow>
   (\<forall>i<j. fst (exec_step (steps ! i) (session_before steps s i)) = None) \<Longrightarrow>
   fst (exec_step (steps ! j) (session_before steps s j)) = Some e \<Longrightarrow>
   map status (fst (run_steps steps s)) =
     replicate j Passed @ Failed # replicate (length steps - Suc j) Skipped \<and>
   detail (fst (run_steps steps s) ! j) = Some e"
proof (induction steps arbitrary: s j)
  case Nil
  then show ?case by simp
next
  case (Cons st rest)
  show ?case
  proof (cases j)
    case 0
    with Cons.prems(3) have "fst (exec_step st s) = Some e"
      by (simp add: session_before_0)
    with 0 show ?thesis
      by (simp add: case_prod_beta comp_def map_replicate_const)
  next
    case (Suc j')
    from Cons.prems(2) Suc have first: "fst (exec_step st s) = None"
      by (auto simp: session_before_0 dest: spec[of _ 0])
    have rest_pass: "\<forall>i<j'. fst (exec_step (rest ! i)
        (session_before rest (snd (exec_step st s)) i)) = None"
    proof (intro allI impI)
      fix i assume "i < j'"
      with Suc have "Suc i < j" by simp
      with Cons.prems(2) have "fst (exec_step ((st # rest) ! Suc i)
          (session_before (st # rest) s (Suc i))) = None" by blast
      then show "fst (exec_step (rest ! i)
          (session_before rest (snd (exec_step st s)) i)) = None"
        by (simp add: session_before_Cons)
    qed
    from Cons.prems(3) Suc have rest_fail: "fst (exec_step (rest ! j')
        (session_before rest (snd (exec_step st s)) j')) = Some e"
      by (simp add: session_before_Cons)
    from Cons.prems(1) Suc have "j' < length rest" by simp
    from Cons.IH[OF this rest_pass rest_fail] first Suc show ?thesis
      by (simp add: case_prod_beta)
  qed
qed

text \<open>
  Claim C1. The result of a run has one outcome per step of the journey, in the
  journey's order. If in a journey of \<open>N\<close> steps the steps before step \<open>k\<close> succeed,
  each on the session the one before it left, and step \<open>k\<close> fails there
  (\<open>1 \<le> k \<le> N\<close>), the result holds \<open>k - 1\<close> passed outcomes, then the failed one
  with the failure as its detail, then \<open>N - k\<close> skipped ones; it reports \<open>k\<close> steps
  executed and \<open>N - k\<close> skipped.
\<close>

theorem failing_step_result:
  "length (outcomes (fst (run_scenario steps s))) = length steps \<and>
   map stepName (outcomes (fst (run_scenario steps s))) = map title steps \<and>
   (1 \<le> k \<and> k \<le> length steps \<and>
    (\<forall>i<k - 1. fst (exec_step (steps ! i) (session_before steps s i)) = None) \<and>
    fst (exec_step (steps ! (k - 1)) (session_before steps s (k - 1))) = Some e \<longrightarrow>
      map status (outcomes (fst (run_scenario steps s))) =
        replicate (k - 1) Passed @ Failed # replicate (length steps - k) Skipped \<and>
      detail (outcomes (fst (run_scenario steps s)) ! (k - 1)) = Some e \<and>
      executed (fst (run_scenario steps s)) = k \<and>
      skipped (fst (run_scenario steps s)) = length steps - k)"
proof -
  have os: "outcomes (fst (run_scenario steps s)) = fst (run_steps steps s)"
    by (simp add: run_scenario_def case_prod_beta)
  have ex: "executed (fst (run_scenario steps s)) =
      length (filter (\<lambda>t. t \<noteq> Skipped) (map status (fst (run_steps steps s))))"
    by (simp add: run_scenario_def case_prod_beta count_not_skipped)
  have sk: "skipped (fst (run_scenario steps s)) =
      length (filter (\<lambda>t. t = Skipped) (map status (fst (run_steps steps s))))"
    by (simp add: run_scenario_def case_prod_beta count_skipped)
  have failing: "map status (fst (run_steps steps s)) =
        replicate (k - 1) Passed @ Failed # replicate (length steps - k) Skipped \<and>
      detail (fst (run_steps steps s) ! (k - 1)) = Some e \<and>
      executed (fst (run_scenario steps s)) = k \<and>
      skipped (fst (run_scenario steps s)) = length steps - k"
    if k: "1 \<le> k" "k \<le> length steps"
      and pass: "\<forall>i<k - 1. fst (exec_step (steps ! i) (session_before steps s i)) = None"
      and fail: "fst (exec_step (steps ! (k - 1)) (session_before steps s (k - 1))) = Some e"
  proof -
    from k have j: "k - 1 < length steps" "Suc (k - 1) = k" by simp_all
    from run_steps_fails_at[OF j(1) pass fail] j(2)
    have eq: "map status (fst (run_steps steps s)) =
        replicate (k - 1) Passed @ Failed # replicate (length steps - k) Skipped"
      and d: "detail (fst (run_steps steps s) ! (k - 1)) = Some e" by simp_all
    from k(1) have "executed (fst (run_scenario steps s)) = k \<and>
        skipped (fst (run_scenario steps s)) = length steps - k"
      unfolding ex sk eq by simp
    with eq d show ?thesis by simp
  qed
  show ?thesis
    using failing by (simp add: os run_steps_length run_steps_names)
qed

theorem failing_step_result_witness:
  "(1::nat) \<le> 2 \<and> 2 \<le> length guest_journey \<and>
   fst (exec_step (guest_journey ! 0) (session_before guest_journey checkout_form 0)) = None \<and>
   fst (exec_step (guest_journey ! 1) (session_before guest_journey checkout_form 1)) =
     Some ElementNotInteractable \<and>
   map status (outcomes (fst (run_scenario guest_journey checkout_form))) =
     [Passed, Failed, Skipped] \<and>
   detail (outcomes (fst (run_scenario guest_journey checkout_form)) ! 1) =
     Some ElementNotInteractable \<and>
   executed (fst (run_scenario guest_journey checkout_form)) = 2 \<and>
   skipped (fst (run_scenario guest_journey checkout_form)) = 1 \<and>
   length (outcomes (fst (run_scenario guest_journey checkout_form))) = 3"
proof -
  have p: "fst (exec_step (guest_journey ! 0)
      (session_before guest_journey checkout_form 0)) = None"
    by (simp add: guest_journey_def checkout_form_def session_before_def exec_step_def
        fill_def click_def form_engine_def)
  have f: "fst (exec_step (guest_journey ! 1)
      (session_before guest_journey checkout_form 1)) = Some ElementNotInteractable"
    by (simp add: guest_journey_def checkout_form_def session_before_def exec_step_def
        fill_def click_def form_engine_def)
  have len: "length guest_journey = 3" by (simp add: guest_journey_def)
  from p have pass: "\<forall>i<2 - 1. fst (exec_step (guest_journey ! i)
      (session_before guest_journey checkout_form i)) = None" by simp
  from f have fail: "fst (exec_step (guest_journey ! (2 - 1))
      (session_before guest_journey checkout_form (2 - 1))) = Some ElementNotInteractable"
    by simp
  from failing_step_result [of guest_journey checkout_form 2 ElementNotInteractable]
    pass fail len p f
  show ?thesis by simp
qed

section \<open>Properties of the Test Data Provider\<close>

lemma digit_inj: "a < 10 \<Longrightarrow> b < 10 \<Longrightarrow> digit a = digit b \<Longrightarrow> a = b"
proof -
  assume a: "a < 10" and b: "b < 10" and eq: "digit a = digit b"
  have d: "distinct ''0123456789''" by simp
  have l: "length ''0123456789'' = 10" by simp
  from eq have "''0123456789'' ! a = ''0123456789'' ! b" by (simp add: digit_def)
  with d a b l show "a = b" by (metis nth_eq_iff_index_eq)
qed

lemma decimal_nonempty: "decimal n \<noteq> []"
  by (subst decimal.simps) simp

text \<open>Two counters with the same decimal rendering are equal.\<close>

lemma decimal_inj: "decimal n = decimal m \<Longrightarrow> n = m"
proof (induction n arbitrary: m rule: decimal.induct)
  case (1 n)
  show ?case
  proof (cases "n < 10")
    case True
    then have n1: "decimal n = [digit n]" by (subst decimal.simps) simp
    show ?thesis
    proof (cases "m < 10")
      case m: True
      then have "decimal m = [digit m]" by (subst decimal.simps) simp
      with n1 "1.prems" have "digit n = digit m" by simp
      with True m show ?thesis by (rule digit_inj)
    next
      case False
      then have "decimal m = decimal (m div 10) @ [digit (m mod 10)]"
        by (subst decimal.simps) simp
      with n1 "1.prems" decimal_nonempty[of "m div 10"] show ?thesis by simp
    qed
  next
    case False
    then have n2: "decimal n = decimal (n div 10) @ [digit (n mod 10)]"
      by (subst decimal.simps) simp
    show ?thesis
    proof (cases "m < 10")
      case True
      then have "decimal m = [digit m]" by (subst decimal.simps) simp
      with n2 "1.prems" decimal_nonempty[of "n div 10"] show ?thesis by simp
    next
      case m: False
      then have "decimal m = decimal (m div 10) @ [digit (m mod 10)]"
        by (subst decimal.simps) simp
      with n2 "1.prems" have q: "decimal (n div 10) = decimal (m div 10)"
        and r: "digit (n mod 10) = digit (m mod 10)" by simp_all
      from "1.IH"[OF False q] have "n div 10 = m div 10" .
      moreover from r have "n mod 10 = m mod 10" by (intro digit_inj) simp_all
      ultimately show ?thesis by (metis div_mult_mod_eq)
    qed
  qed
qed

lemma generate_counter: "counter (snd (generate g p)) = Suc (counter p)"
  by (cases g) (simp_all add: randomEmail_def randomProductName_def)

lemma generate_inj:
  "fst (generate g p) = fst (generate g' q) \<Longrightarrow> g = g' \<and> counter p = counter q"
  by (cases g; cases g') (auto simp: randomEmail_def randomProductName_def dest: decimal_inj)

text \<open>Every value of a run was generated at the counter the run started with, or later.\<close>

lemma process_run_later:
  "v \<in> set (process_run gs p) \<Longrightarrow> \<exists>g q. counter p \<le> counter q \<and> v = fst (generate g q)"
proof (induction gs arbitrary: p)
  case Nil
  then show ?case by simp
next
  case (Cons g gs)
  from Cons.prems
  have "v = fst (generate g p) \<or> v \<in> set (process_run gs (snd (generate g p)))"
    by (simp add: case_prod_beta)
  then show ?case
  proof
    assume "v = fst (generate g p)"
    then show ?thesis by (intro exI[of _ g] exI[of _ p]) simp
  next
    assume "v \<in> set (process_run gs (snd (generate g p)))"
    from Cons.IH[OF this] obtain g' q where
      "counter (snd (generate g p)) \<le> counter q" "v = fst (generate g' q)" by blast
    then show ?thesis by (intro exI[of _ g'] exI[of _ q]) (simp add: generate_counter)
  qed
qed

lemma process_run_distinct: "distinct (process_run gs p)"
proof (induction gs arbitrary: p)
  case Nil
  then show ?case by simp
next
  case (Cons g gs)
  have "fst (generate g p) \<notin> set (process_run gs (snd (generate g p)))"
  proof
    assume "fst (generate g p) \<in> set (process_run gs (snd (generate g p)))"
    from process_run_later[OF this] obtain g' q where
      le: "counter (snd (generate g p)) \<le> counter q"
      and eq: "fst (generate g p) = fst (generate g' q)"
      by blast
    from generate_inj[OF eq] have "counter p = counter q" by simp
    with le show False by (simp add: generate_counter)
  qed
  with Cons.IH show ?case by (simp add: case_prod_beta)
qed

text \<open>
  Claim C6. Two successive calls of \<^verbatim>\<open>randomEmail()\<close> in a process return distinct
  values, and so do any two generator calls of one process run, whatever the calls
  between them. Across processes nothing is promised: every process starts its
  counter at zero, so the first \<^verbatim>\<open>randomEmail()\<close> of any two process runs is the same
  value.
\<close>

theorem generated_values_unique_within_process:
  "fst (randomEmail p) \<noteq> fst (randomEmail (snd (randomEmail p))) \<and>
   distinct (process_run gs p) \<and>
   process_run (RandomEmail # gs) process_start ! 0 =
     process_run (RandomEmail # gs') process_start ! 0"
proof -
  have "distinct (process_run [RandomEmail, RandomEmail] p)"
    by (rule process_run_distinct)
  then have "fst (randomEmail p) \<noteq> fst (randomEmail (snd (randomEmail p)))"
    by (simp add: case_prod_beta)
  moreover have "process_run (RandomEmail # gs) process_start ! 0 =
      process_run (RandomEmail # gs') process_start ! 0"
    by (simp add: case_prod_beta)
  ultimately show ?thesis by (simp add: process_run_distinct)
qed

section \<open>Properties of the checkout page object\<close>

text \<open>
  For every engine, a chain of fills that fails in its later part returns the session
  its earlier part produced: what was typed before the failure is not undone.
\<close>

lemma fill_fields_append:
  "fill_fields eng t locs (xs @ ys) s =
     (case fill_fields eng t locs xs s of
        (Some e, s') \<Rightarrow> (Some e, s')
      | (None, s') \<Rightarrow> fill_fields eng t locs ys s')"
  by (induction xs arbitrary: s) (auto split: option.splits prod.splits)

text \<open>
  On the form whose last-name field is not interactable, the checkout fails at that
  field; the first name typed before it stays typed.
\<close>

lemma checkout_stops_partway:
  "completeGuestCheckout form_engine t checkout_page
     [(''firstName'', ''Ada''), (''lastName'', ''Lovelace'')] checkout_form =
   (Some ElementNotInteractable, checkout_form\<lparr>content := [(''#first-name'', ''Ada'')]\<rparr>)"
  by (simp add: completeGuestCheckout_def checkout_page_def checkout_form_def fill_def
      form_engine_def)

text \<open>
  Claim C7. \<^verbatim>\<open>completeGuestCheckout(billingData)\<close> is not atomic: there is a session
  and a billing record on which it fails partway and leaves the session changed, with
  one field of the record typed into the form and another not.
\<close>

theorem completeGuestCheckout_not_atomic:
  "\<exists>page billingData s e s'.
     completeGuestCheckout form_engine t page billingData s = (Some e, s') \<and> s' \<noteq> s \<and>
     (\<exists>f v loc. (f, v) \<in> set billingData \<and> fieldLocator page f = Some loc \<and>
        (loc, v) \<in> set (content s') \<and> (loc, v) \<notin> set (content s)) \<and>
     (\<exists>f v loc. (f, v) \<in> set billingData \<and> fieldLocator page f = Some loc \<and>
        (loc, v) \<notin> set (content s'))"
proof -
  let ?bd = "[(''firstName'', ''Ada''), (''lastName'', ''Lovelace'')]"
  let ?s' = "checkout_form\<lparr>content := [(''#first-name'', ''Ada'')]\<rparr>"
  have run: "completeGuestCheckout form_engine t checkout_page ?bd checkout_form =
      (Some ElementNotInteractable, ?s')"
    by (rule checkout_stops_partway)
  have changed: "?s' \<noteq> checkout_form"
    by (simp add: checkout_form_def)
  have typed: "(''firstName'', ''Ada'') \<in> set ?bd \<and>
      fieldLocator checkout_page ''firstName'' = Some ''#first-name'' \<and>
      (''#first-name'', ''Ada'') \<in> set (content ?s') \<and>
      (''#first-name'', ''Ada'') \<notin> set (content checkout_form)"
    by (simp add: checkout_page_def checkout_form_def)
  have untyped: "(''lastName'', ''Lovelace'') \<in> set ?bd \<and>
      fieldLocator checkout_page ''lastName'' = Some ''#last-name'' \<and>
      (''#last-name'', ''Lovelace'') \<notin> set (content ?s')"
    by (simp add: checkout_page_def checkout_form_def)
  from run changed typed untyped show ?thesis by blast
qed

end
